theory Spec2Isabelle
  imports Main "HOL-Library.Word"
begin

section \<open>Output streams\<close>

text \<open>
  The serializer of \<^verbatim>\<open>training-2018/examples/serialization_json.cpp\<close> writes to two
  stream objects: the \<^verbatim>\<open>std::ostream& os\<close> it is given, and the global
  \<^verbatim>\<open>std::cout\<close>, which it names directly. The two may be the same object (as in
  \<^verbatim>\<open>main\<close>, where the writer is built on \<^verbatim>\<open>std::cout\<close>) or different ones, so
  the streams live in a store indexed by the identity of the stream object.

  A stream holds the characters inserted so far and its formatting flags. Of the flags
  only \<^verbatim>\<open>boolalpha\<close> is touched by the code; two more flags that do not change how
  the modelled values are inserted are kept so that the frame of an operation can be
  stated. Numbers are inserted as a stream does whose numeric flags and precision were
  never changed: integers in base ten without sign decoration, floating-point numbers in
  the general format with a precision of six.
\<close>

datatype ostream_id = cout | ostringstream nat

datatype fmtflag = boolalpha | skipws | unitbuf

record ostream =
  buf :: string
  flags :: "fmtflag set"

type_synonym streams = "ostream_id \<Rightarrow> ostream"

definition put :: "ostream_id \<Rightarrow> string \<Rightarrow> streams \<Rightarrow> streams" where
  "put os s \<sigma> = \<sigma>(os := (\<sigma> os)\<lparr>buf := buf (\<sigma> os) @ s\<rparr>)"

definition setf :: "ostream_id \<Rightarrow> fmtflag \<Rightarrow> streams \<Rightarrow> streams" where
  "setf os f \<sigma> = \<sigma>(os := (\<sigma> os)\<lparr>flags := insert f (flags (\<sigma> os))\<rparr>)"

definition unsetf :: "ostream_id \<Rightarrow> fmtflag \<Rightarrow> streams \<Rightarrow> streams" where
  "unsetf os f \<sigma> = \<sigma>(os := (\<sigma> os)\<lparr>flags := flags (\<sigma> os) - {f}\<rparr>)"

text \<open>Decimal digits of a natural number, most significant first.\<close>

fun digits :: "nat \<Rightarrow> string" where
  "digits n =
     (if n < 10 then [''0123456789'' ! n]
      else digits (n div 10) @ [''0123456789'' ! (n mod 10)])"

declare digits.simps [simp del]

definition decimal :: "int \<Rightarrow> string" where
  "decimal i = (if i < 0 then CHR ''-'' # digits (nat (- i)) else digits (nat i))"



text \<open>
  Floating-point numbers. A finite number is a sign, a significand and a binary exponent,
  with the value \<open>significand * 2 ^ exponent\<close>; the other values are the infinities and
  the NaNs, each with a sign.
\<close>

datatype floating = Finite bool nat int | Infinity bool | NaN bool

text \<open>
  The general format \<^verbatim>\<open>%g\<close> with precision six, which is how a stream with default
  flags inserts a floating-point number. The magnitude \<open>num / den\<close> is rounded to six
  significant decimal digits, ties to the even digit. With \<open>x\<close> the decimal exponent
  after rounding, the number is written in positional notation when \<open>-4 \<le> x < 6\<close> and
  in scientific notation, with an exponent of at least two digits, otherwise; trailing zeros
  of the fraction are dropped, and the decimal point with them when no digit is left.
  Infinities and NaNs are written as the GNU C library writes them.
\<close>

definition strip_zeros :: "string \<Rightarrow> string" where
  "strip_zeros s = rev (dropWhile (\<lambda>c. c = CHR ''0'') (rev s))"

definition fraction :: "string \<Rightarrow> string" where
  "fraction ds = (if strip_zeros ds = [] then [] else CHR ''.'' # strip_zeros ds)"

definition decimal_exponent :: "nat \<Rightarrow> nat \<Rightarrow> int" where
  "decimal_exponent num den =
     (let x = int (length (digits num)) - int (length (digits den))
      in if (if 0 \<le> x then den * 10 ^ nat x \<le> num else den \<le> num * 10 ^ nat (- x))
         then x else x - 1)"

definition round_half_even :: "nat \<Rightarrow> nat \<Rightarrow> nat" where
  "round_half_even n d =
     (let q = n div d; r = n mod d
      in if d < 2 * r \<or> (2 * r = d \<and> odd q) then q + 1 else q)"

definition significant :: "nat \<Rightarrow> nat \<Rightarrow> int \<times> nat" where
  "significant num den =
     (let x = decimal_exponent num den;
          q = (if x \<le> 5 then round_half_even (num * 10 ^ nat (5 - x)) den
               else round_half_even num (den * 10 ^ nat (x - 5)))
      in if q = 1000000 then (x + 1, 100000) else (x, q))"

definition style_f :: "int \<Rightarrow> string \<Rightarrow> string" where
  "style_f x ds =
     (if 0 \<le> x then take (nat x + 1) ds @ fraction (drop (nat x + 1) ds)
      else ''0'' @ fraction (replicate (nat (- x - 1)) CHR ''0'' @ ds))"

definition style_e :: "int \<Rightarrow> string \<Rightarrow> string" where
  "style_e x ds =
     take 1 ds @ fraction (drop 1 ds) @ ''e'' @ (if x < 0 then ''-'' else ''+'')
       @ (if \<bar>x\<bar> < 10 then ''0'' else []) @ digits (nat \<bar>x\<bar>)"

definition format_g :: "nat \<Rightarrow> nat \<Rightarrow> string" where
  "format_g num den =
     (if num = 0 then ''0''
      else case significant num den of
             (x, q) \<Rightarrow> if - 4 \<le> x \<and> x < 6 then style_f x (digits q) else style_e x (digits q))"

fun float_text :: "floating \<Rightarrow> string" where
  "float_text (Finite neg m e) =
     (if neg then ''-'' else []) @ format_g (m * 2 ^ nat e) (2 ^ nat (- e))"
| "float_text (Infinity neg) = (if neg then ''-'' else []) @ ''inf''"
| "float_text (NaN neg) = (if neg then ''-'' else []) @ ''nan''"

text \<open>
  The values that reach \<^verbatim>\<open>operator<<\<close> of the stream: a \<^verbatim>\<open>bool\<close>; an integer of a
  type wider than eight bits (\<^verbatim>\<open>short\<close>, \<^verbatim>\<open>int\<close>, \<^verbatim>\<open>long\<close> and the like), inserted
  as its decimal digits; an integer of an eight-bit type (\<^verbatim>\<open>signed char\<close>,
  \<^verbatim>\<open>unsigned char\<close>, \<^verbatim>\<open>int8_t\<close>, \<^verbatim>\<open>uint8_t\<close>), for which \<^verbatim>\<open>operator<<\<close> is
  the character inserter, so that it is inserted as the one character with that code; a
  floating-point number; or something inserted as its characters (a \<^verbatim>\<open>char\<close>, a string,
  a string literal).
\<close>

datatype scalar =
  Boolean bool | Integer int | Integer8 "8 word" | Floating floating | Characters string

fun insert_bool :: "ostream_id \<Rightarrow> bool \<Rightarrow> streams \<Rightarrow> streams" where
  "insert_bool os b \<sigma> =
     (if boolalpha \<in> flags (\<sigma> os)
      then put os (if b then ''true'' else ''false'') \<sigma>
      else put os (if b then ''1'' else ''0'') \<sigma>)"

fun insert_scalar :: "ostream_id \<Rightarrow> scalar \<Rightarrow> streams \<Rightarrow> streams" where
  "insert_scalar os (Boolean b) \<sigma> = insert_bool os b \<sigma>"
| "insert_scalar os (Integer i) \<sigma> = put os (decimal i) \<sigma>"
| "insert_scalar os (Integer8 w) \<sigma> = put os [char_of (unat w)] \<sigma>"
| "insert_scalar os (Floating d) \<sigma> = put os (float_text d) \<sigma>"
| "insert_scalar os (Characters s) \<sigma> = put os s \<sigma>"

section \<open>Types and values\<close>

text \<open>
  The code is generic in the type \<^verbatim>\<open>T\<close> of the value and consults \<^verbatim>\<open>T\<close> only
  through the compile-time predicates below, so a type is modelled by their answers.
\<close>

record traits =
  is_container :: bool
  is_pointer_like :: bool
  has_member_function_serialize :: bool
  is_pointer :: bool
  convertible_to_string :: bool
  convertible_to_string_view :: bool
  assignable_from_nullopt :: bool

text \<open>
  A value carries the answers for its type and what each operation the code may apply to
  it yields: the scalar given to \<^verbatim>\<open>os << v\<close>, the elements visited by the range-for
  loop, the object \<^verbatim>\<open>*v\<close> a handle refers to (none for a null pointer or an empty
  optional), and the insertions \<^verbatim>\<open>v.serialize(writer)\<close> performs on the writer, in
  order. An insertion is either a name-value pair built by \<^verbatim>\<open>makeNvp\<close> or a plain
  value. An operation the type does not have is left empty.
\<close>

datatype val =
  Val (traits_of: traits) (scalar_of: scalar) (elements: "val list")
      (pointee: "val option") (members: "item list")
and item = Nvp string val | Plain val

definition char_traits :: traits where
  "char_traits = \<lparr>is_container = False, is_pointer_like = False,
     has_member_function_serialize = False, is_pointer = False,
     convertible_to_string = False, convertible_to_string_view = False,
     assignable_from_nullopt = False\<rparr>"

definition char_val :: "char \<Rightarrow> val" where
  "char_val c = Val char_traits (Characters [c]) [] None []"

section \<open>The serializer\<close>

definition quote :: char where
  "quote = CHR 0x22"

definition backspace :: char where
  "backspace = CHR 0x08"

text \<open>\<^verbatim>\<open>print_default\<close>, the template and the overload for \<^verbatim>\<open>bool\<close>.\<close>

definition print_default :: "ostream_id \<Rightarrow> val \<Rightarrow> streams \<Rightarrow> streams" where
  "print_default os v \<sigma> =
     (if convertible_to_string_view (traits_of v)
      then put os [quote] (insert_scalar os (scalar_of v) (put os [quote] \<sigma>))
      else insert_scalar os (scalar_of v) \<sigma>)"

definition print_default_bool :: "ostream_id \<Rightarrow> bool \<Rightarrow> streams \<Rightarrow> streams" where
  "print_default_bool os b \<sigma> = unsetf os boolalpha (insert_bool os b (setf os boolalpha \<sigma>))"

text \<open>
  \<^verbatim>\<open>makeNullValue<T>()\<close> and the comparison of a handle with it. For a type on which
  the comparison is defined, \<^verbatim>\<open>v == std::nullopt\<close> and \<^verbatim>\<open>v == nullptr\<close> hold
  exactly when the handle refers to no object. Hence a handle that is not equal to its
  null value has an object to print, and the last case of \<^verbatim>\<open>print_pointer\<close> below,
  a handle that is unequal to the null value and has no object, never arises.
\<close>

datatype null_value = Nullopt | Nullptr

definition makeNullValue :: "traits \<Rightarrow> null_value" where
  "makeNullValue T = (if assignable_from_nullopt T then Nullopt else Nullptr)"

fun equals :: "val \<Rightarrow> null_value \<Rightarrow> bool" where
  "equals v Nullopt = (pointee v = None)"
| "equals v Nullptr = (pointee v = None)"

text \<open>
  The termination measure. A type with none of the capabilities tested by the first three
  branches of \<^verbatim>\<open>print\<close> ends the recursion at once; this is what makes the calls
  on the brace characters of the third branch terminate.
\<close>

definition nested :: "traits \<Rightarrow> bool" where
  "nested T \<longleftrightarrow> is_container T \<and> \<not> convertible_to_string T
     \<or> is_pointer_like T \<or> is_pointer T \<or> has_member_function_serialize T"

definition weight :: "val \<Rightarrow> nat" where
  "weight v = (if nested (traits_of v) then size v else 0)"

fun item_weight :: "item \<Rightarrow> nat" where
  "item_weight (Nvp n v) = weight v"
| "item_weight (Plain v) = weight v"

text \<open>
  \<^verbatim>\<open>print\<close> with the functions it calls and that call it back: \<^verbatim>\<open>print_container\<close>
  and its range-for loop, \<^verbatim>\<open>print_pointer\<close>, the two \<^verbatim>\<open>operator<<\<close> of
  \<^verbatim>\<open>Writer\<close> (one equation for each) and the run of a \<^verbatim>\<open>serialize\<close> member.
  The writer holds nothing but the stream it was built on, so it is passed as that stream.
  Consecutive insertions into one stream are written as one. The call
  \<^verbatim>\<open>print_default(os, v)\<close> resolves to the overload for \<^verbatim>\<open>bool\<close> exactly when
  \<^verbatim>\<open>T\<close> is \<^verbatim>\<open>bool\<close>.
\<close>

function print :: "ostream_id \<Rightarrow> val \<Rightarrow> string \<Rightarrow> streams \<Rightarrow> streams"
  and print_container :: "ostream_id \<Rightarrow> val \<Rightarrow> streams \<Rightarrow> streams"
  and for_each :: "ostream_id \<Rightarrow> val list \<Rightarrow> streams \<Rightarrow> streams"
  and print_pointer :: "ostream_id \<Rightarrow> val \<Rightarrow> streams \<Rightarrow> streams"
  and Writer_shift :: "ostream_id \<Rightarrow> item \<Rightarrow> streams \<Rightarrow> streams"
  and serialize :: "ostream_id \<Rightarrow> item list \<Rightarrow> streams \<Rightarrow> streams"
where
  "print os v n \<sigma> =
     (let \<sigma>1 = (if n \<noteq> [] then put cout ([quote] @ n @ [quote] @ '':'') \<sigma> else \<sigma>) in
      if is_container (traits_of v) \<and> \<not> convertible_to_string (traits_of v)
      then print_container os v \<sigma>1
      else if is_pointer_like (traits_of v) \<or> is_pointer (traits_of v)
      then print_pointer os v \<sigma>1
      else if has_member_function_serialize (traits_of v)
      then Writer_shift os (Plain (char_val CHR ''}''))
             (serialize os (members v)
               (Writer_shift os (Plain (char_val CHR ''{'')) \<sigma>1))
      else (case scalar_of v of
              Boolean b \<Rightarrow> print_default_bool os b \<sigma>1
            | _ \<Rightarrow> print_default os v \<sigma>1))"
| "print_container os v \<sigma> =
     put cout [backspace, CHR '']''] (for_each os (elements v) (put cout ''['' \<sigma>))"
| "for_each os [] \<sigma> = \<sigma>"
| "for_each os (x # xs) \<sigma> = for_each os xs (put cout '','' (print os x [] \<sigma>))"
| "print_pointer os v \<sigma> =
     (if equals v (makeNullValue (traits_of v))
      then put cout ''null'' \<sigma>
      else (case pointee v of Some x \<Rightarrow> print os x [] \<sigma> | None \<Rightarrow> \<sigma>))"
| "Writer_shift os (Nvp n v) \<sigma> = print os v n \<sigma>"
| "Writer_shift os (Plain v) \<sigma> = print os v [] \<sigma>"
| "serialize os [] \<sigma> = \<sigma>"
| "serialize os (i # is) \<sigma> = serialize os is (Writer_shift os i \<sigma>)"
  by pat_completeness auto

termination
proof (relation "measure (\<lambda>x. case x of
      Inl (Inl (os, v, n, \<sigma>)) \<Rightarrow> 3 * weight v + 2
    | Inl (Inr (Inl (os, v, \<sigma>))) \<Rightarrow> 3 * size v + 1
    | Inl (Inr (Inr (os, xs, \<sigma>))) \<Rightarrow> 3 * size_list size xs + 1
    | Inr (Inl (os, v, \<sigma>)) \<Rightarrow> 3 * size v + 1
    | Inr (Inr (Inl (os, i, \<sigma>))) \<Rightarrow> 3 * item_weight i + 3
    | Inr (Inr (Inr (os, is, \<sigma>))) \<Rightarrow> 3 * size_list size is + 1)", goal_cases)
  have weight_le: "weight v \<le> size v" for v
    by (simp add: weight_def)
  have weight_nested: "nested (traits_of v) \<Longrightarrow> weight v = size v" for v
    by (simp add: weight_def)
  have weight_brace: "weight (char_val c) = 0" for c
    by (simp add: weight_def nested_def char_val_def char_traits_def)
  have size_pos: "0 < size v" for v :: val
    by (cases v) simp
  have size_elements: "size_list size (elements v) < size v" for v
    by (cases v) simp
  have size_members: "size_list size (members v) < size v" for v
    by (cases v) simp
  have size_pointee: "pointee v = Some x \<Longrightarrow> size x < size v" for v x
    by (cases v) simp
  have item_weight_less: "item_weight i < size i" for i
    using weight_le by (cases i) (simp_all add: less_Suc_eq_le)
  {
    case 1 show ?case by simp
  next
    case (2 os v n \<sigma> x)
    then have "nested (traits_of v)" by (simp add: nested_def)
    then show ?case by (simp add: weight_nested)
  next
    case (3 os v n \<sigma> x)
    then have "nested (traits_of v)" by (auto simp: nested_def)
    then show ?case by (simp add: weight_nested)
  next
    case (4 os v n \<sigma> x)
    then have "nested (traits_of v)" by (simp add: nested_def)
    then show ?case using size_pos [of v] by (simp add: weight_nested weight_brace)
  next
    case (5 os v n \<sigma> x)
    then have "nested (traits_of v)" by (simp add: nested_def)
    then show ?case using size_members [of v] by (simp add: weight_nested)
  next
    case (6 os v n \<sigma> x)
    then have "nested (traits_of v)" by (simp add: nested_def)
    then show ?case using size_pos [of v] by (simp add: weight_nested weight_brace)
  next
    case (7 os v \<sigma>) show ?case using size_elements [of v] by simp
  next
    case (8 os x xs \<sigma>) show ?case using weight_le [of x] by simp
  next
    case 9 show ?case by simp
  next
    case (10 os v \<sigma> x2)
    then show ?case using weight_le [of x2] size_pointee [of v x2] by simp
  next
    case 11 show ?case by simp
  next
    case 12 show ?case by simp
  next
    case (13 os i "is" \<sigma>) show ?case using item_weight_less [of i] by simp
  next
    case 14 show ?case by simp
  }
qed

declare print.simps [simp del] print_container.simps [simp del] print_pointer.simps [simp del]

section \<open>The classification of the specification\<close>

text \<open>
  The specification names four capability categories and fixes the order in which they
  are tried. \<open>qualifies\<close> says when a type has a capability, in the specification's words:
  a sequence is iterable and not text, a nullable reference is a pointer-like handle or a
  raw pointer, a self-describing type has the member hook, and every type can fall back to
  a scalar. \<open>classify\<close> takes the first category of the fixed order that the type
  qualifies for, and \<open>strategy\<close> is the rendering the specification assigns to a category.
\<close>

datatype capability = Sequence | NullableReference | SelfDescribing | Scalar

fun qualifies :: "traits \<Rightarrow> capability \<Rightarrow> bool" where
  "qualifies T Sequence = (is_container T \<and> \<not> convertible_to_string T)"
| "qualifies T NullableReference = (is_pointer_like T \<or> is_pointer T)"
| "qualifies T SelfDescribing = has_member_function_serialize T"
| "qualifies T Scalar = True"

definition classify :: "traits \<Rightarrow> capability" where
  "classify T =
     (case filter (qualifies T) [Sequence, NullableReference, SelfDescribing, Scalar] of
        c # _ \<Rightarrow> c | [] \<Rightarrow> Scalar)"

definition field_label :: "string \<Rightarrow> streams \<Rightarrow> streams" where
  "field_label n \<sigma> = (if n \<noteq> [] then put cout ([quote] @ n @ [quote] @ '':'') \<sigma> else \<sigma>)"

fun strategy :: "capability \<Rightarrow> ostream_id \<Rightarrow> val \<Rightarrow> streams \<Rightarrow> streams" where
  "strategy Sequence os v \<sigma> = print_container os v \<sigma>"
| "strategy NullableReference os v \<sigma> = print_pointer os v \<sigma>"
| "strategy SelfDescribing os v \<sigma> =
     print os (char_val CHR ''}'') []
       (serialize os (members v) (print os (char_val CHR ''{'') [] \<sigma>))"
| "strategy Scalar os v \<sigma> =
     (case scalar_of v of
        Boolean b \<Rightarrow> print_default_bool os b \<sigma>
      | _ \<Rightarrow> print_default os v \<sigma>)"

section \<open>Types and values of the standard library\<close>

text \<open>
  The answers of the compile-time predicates for the types used in \<^verbatim>\<open>main\<close> and for
  \<^verbatim>\<open>std::string_view\<close>, as the C++17 standard library gives them, and values of these
  types. \<^verbatim>\<open>std::string\<close> and \<^verbatim>\<open>std::string_view\<close> both have \<^verbatim>\<open>begin()\<close>,
  \<^verbatim>\<open>end()\<close> and \<^verbatim>\<open>iterator\<close>; a \<^verbatim>\<open>std::string_view\<close> converts to a
  \<^verbatim>\<open>std::string\<close> only explicitly, so \<^verbatim>\<open>std::is_convertible_v\<close> is false for it.
  \<^verbatim>\<open>std::optional\<close> and the smart pointers have \<^verbatim>\<open>operator->\<close> and
  \<^verbatim>\<open>operator*\<close>; only \<^verbatim>\<open>std::optional\<close> can be assigned \<^verbatim>\<open>std::nullopt\<close>.
\<close>

definition arithmetic_traits :: traits where
  "arithmetic_traits = char_traits"

definition string_traits :: traits where
  "string_traits = char_traits\<lparr>is_container := True, convertible_to_string := True,
     convertible_to_string_view := True\<rparr>"

definition string_view_traits :: traits where
  "string_view_traits = char_traits\<lparr>is_container := True, convertible_to_string_view := True\<rparr>"

definition vector_traits :: traits where
  "vector_traits = char_traits\<lparr>is_container := True\<rparr>"

definition optional_traits :: traits where
  "optional_traits = char_traits\<lparr>is_pointer_like := True, assignable_from_nullopt := True\<rparr>"

definition raw_pointer_traits :: traits where
  "raw_pointer_traits = char_traits\<lparr>is_pointer := True\<rparr>"

definition smart_pointer_traits :: traits where
  "smart_pointer_traits = char_traits\<lparr>is_pointer_like := True\<rparr>"

definition struct_traits :: traits where
  "struct_traits = char_traits\<lparr>has_member_function_serialize := True\<rparr>"

definition int_val :: "int \<Rightarrow> val" where
  "int_val i = Val arithmetic_traits (Integer i) [] None []"

definition int8_val :: "8 word \<Rightarrow> val" where
  "int8_val w = Val arithmetic_traits (Integer8 w) [] None []"

definition double_val :: "floating \<Rightarrow> val" where
  "double_val d = Val arithmetic_traits (Floating d) [] None []"

definition bool_val :: "bool \<Rightarrow> val" where
  "bool_val b = Val arithmetic_traits (Boolean b) [] None []"

definition string_val :: "string \<Rightarrow> val" where
  "string_val s = Val string_traits (Characters s) (map char_val s) None []"

definition string_view_val :: "string \<Rightarrow> val" where
  "string_view_val s = Val string_view_traits (Characters s) (map char_val s) None []"

definition vector_val :: "val list \<Rightarrow> val" where
  "vector_val xs = Val vector_traits (Characters []) xs None []"

definition optional_val :: "val option \<Rightarrow> val" where
  "optional_val x = Val optional_traits (Characters []) [] x []"

definition raw_pointer_val :: "val option \<Rightarrow> val" where
  "raw_pointer_val x = Val raw_pointer_traits (Characters []) [] x []"

definition unique_ptr_val :: "val option \<Rightarrow> val" where
  "unique_ptr_val x = Val smart_pointer_traits (Characters []) [] x []"

text \<open>\<^verbatim>\<open>struct Foo\<close> of the example, with its \<^verbatim>\<open>serialize\<close> member.\<close>

definition Foo :: "int \<Rightarrow> string \<Rightarrow> val" where
  "Foo i s = Val struct_traits (Characters []) [] None
     [Nvp ''i'' (int_val i), Plain (char_val CHR '',''), Nvp ''s'' (string_val s)]"

text \<open>
  A class that has \<^verbatim>\<open>begin()\<close>, \<^verbatim>\<open>end()\<close> and \<^verbatim>\<open>iterator\<close> and also a
  \<^verbatim>\<open>serialize\<close> member: a type with two capabilities at once.
\<close>

definition iterable_struct_traits :: traits where
  "iterable_struct_traits = char_traits\<lparr>is_container := True,
     has_member_function_serialize := True\<rparr>"

definition iterable_struct_val :: "val list \<Rightarrow> item list \<Rightarrow> val" where
  "iterable_struct_val xs ms = Val iterable_struct_traits (Characters []) xs None ms"

text \<open>Streams into which nothing was inserted yet, and the text a value is rendered as
  on standard output when it is emitted there with no field name.\<close>

definition fresh :: streams where
  "fresh = (\<lambda>_. \<lparr>buf = [], flags = {}\<rparr>)"

definition rendered :: "val \<Rightarrow> string" where
  "rendered v = buf (print cout v [] fresh cout)"

text \<open>
  An action on the streams appends when, on every stream, it leaves the characters that
  are there and adds to them what it adds to an empty stream.
\<close>

definition appends :: "(streams \<Rightarrow> streams) \<Rightarrow> bool" where
  "appends f \<longleftrightarrow> (\<forall>\<sigma> k. buf (f \<sigma> k) = buf (\<sigma> k) @ buf (f fresh k))"

section \<open>Auxiliary facts\<close>

lemma classify_eq:
  "classify T =
     (if is_container T \<and> \<not> convertible_to_string T then Sequence
      else if is_pointer_like T \<or> is_pointer T then NullableReference
      else if has_member_function_serialize T then SelfDescribing
      else Scalar)"
  by (simp add: classify_def)

lemma print_dispatch:
  "print os v n \<sigma> = strategy (classify (traits_of v)) os v (field_label n \<sigma>)"
  by (cases "scalar_of v")
    (simp_all add: print.simps [of os v n \<sigma>] classify_eq field_label_def Let_def)

lemma appendsI: "(\<And>\<sigma> k. buf (f \<sigma> k) = buf (\<sigma> k) @ buf (f fresh k)) \<Longrightarrow> appends f"
  unfolding appends_def by blast

lemma appendsD: "appends f \<Longrightarrow> buf (f \<sigma> k) = buf (\<sigma> k) @ buf (f fresh k)"
  unfolding appends_def by blast

lemma appends_id: "appends (\<lambda>\<sigma>. \<sigma>)"
  by (simp add: appends_def fresh_def)

lemma appends_put: "appends (put os s)"
  by (simp add: appends_def put_def fresh_def)

lemma appends_comp:
  assumes f: "appends f" and g: "appends g"
  shows "appends (\<lambda>\<sigma>. g (f \<sigma>))"
proof (rule appendsI)
  fix \<sigma> k
  have "buf (g (f \<sigma>) k) = buf (\<sigma> k) @ buf (f fresh k) @ buf (g fresh k)"
    using appendsD [OF g, of "f \<sigma>" k] appendsD [OF f, of \<sigma> k] by simp
  moreover have "buf (g (f fresh) k) = buf (f fresh k) @ buf (g fresh k)"
    using appendsD [OF g, of "f fresh" k] by simp
  ultimately show "buf (g (f \<sigma>) k) = buf (\<sigma> k) @ buf (g (f fresh) k)"
    by simp
qed

lemma appends_field_label: "appends (field_label n)"
proof (cases "n = []")
  case True
  then have "field_label n = (\<lambda>\<sigma>. \<sigma>)" by (simp add: field_label_def fun_eq_iff)
  then show ?thesis by (simp add: appends_id)
next
  case False
  then have "field_label n = put cout ([quote] @ n @ [quote] @ '':'')"
    by (simp add: field_label_def fun_eq_iff)
  then show ?thesis by (simp add: appends_put)
qed

lemma appends_print_default_bool: "appends (print_default_bool os b)"
  by (simp add: appends_def print_default_bool_def setf_def unsetf_def put_def fresh_def)

lemma appends_insert_scalar: "\<forall>b. s \<noteq> Boolean b \<Longrightarrow> appends (insert_scalar os s)"
  by (cases s) (simp_all add: appends_def put_def fresh_def)

lemma appends_print_default:
  assumes "\<forall>b. scalar_of v \<noteq> Boolean b"
  shows "appends (print_default os v)"
proof -
  have i: "appends (insert_scalar os (scalar_of v))"
    using assms by (rule appends_insert_scalar)
  show ?thesis
  proof (cases "convertible_to_string_view (traits_of v)")
    case True
    then have "print_default os v =
        (\<lambda>\<sigma>. put os [quote] ((\<lambda>\<sigma>. insert_scalar os (scalar_of v) (put os [quote] \<sigma>)) \<sigma>))"
      by (simp add: print_default_def fun_eq_iff)
    then show ?thesis
      using appends_comp [OF appends_comp [OF appends_put i] appends_put] by simp
  next
    case False
    then have "print_default os v = insert_scalar os (scalar_of v)"
      by (simp add: print_default_def fun_eq_iff)
    then show ?thesis using i by simp
  qed
qed

lemma appends_scalar_strategy: "appends (strategy Scalar os v)"
proof (cases "\<exists>b. scalar_of v = Boolean b")
  case True
  then obtain b where "scalar_of v = Boolean b" by blast
  then have "strategy Scalar os v = print_default_bool os b" by (simp add: fun_eq_iff)
  then show ?thesis by (simp add: appends_print_default_bool)
next
  case False
  then have "strategy Scalar os v = print_default os v"
    by (cases "scalar_of v") (simp_all add: fun_eq_iff)
  then show ?thesis using False by (simp add: appends_print_default)
qed

lemma strategy_fun:
  "strategy Sequence os v = print_container os v"
  "strategy NullableReference os v = print_pointer os v"
  "strategy SelfDescribing os v =
     (\<lambda>\<sigma>. Writer_shift os (Plain (char_val CHR ''}''))
        (serialize os (members v) (Writer_shift os (Plain (char_val CHR ''{'')) \<sigma>)))"
  by (simp_all add: fun_eq_iff)

lemma print_pointer_fun:
  "print_pointer os v =
     (if pointee v = None then put cout ''null''
      else print os (the (pointee v)) [])"
  by (cases "makeNullValue (traits_of v)")
     (auto simp add: fun_eq_iff print_pointer.simps split: option.splits)

lemma appends_all:
  fixes \<sigma> :: streams
  shows "appends (print os v n)"
  and "appends (print_container os v)"
  and "appends (for_each os xs)"
  and "appends (print_pointer os v)"
  and "appends (Writer_shift os i)"
  and "appends (serialize os is)"
proof (induct os v n \<sigma> and os v \<sigma> and os xs \<sigma> and os v \<sigma> and os i \<sigma> and os "is" \<sigma>
    rule: print_print_container_for_each_print_pointer_Writer_shift_serialize.induct)
  case (1 os v n \<sigma>)
  have "appends (strategy (classify (traits_of v)) os v)"
  proof (cases "classify (traits_of v)")
    case Sequence
    then have "is_container (traits_of v) \<and> \<not> convertible_to_string (traits_of v)"
      by (simp add: classify_eq split: if_splits)
    then show ?thesis using Sequence 1(1) [OF refl] by (simp add: strategy_fun)
  next
    case NullableReference
    then have "\<not> (is_container (traits_of v) \<and> \<not> convertible_to_string (traits_of v))"
      "is_pointer_like (traits_of v) \<or> is_pointer (traits_of v)"
      by (simp_all add: classify_eq split: if_splits)
    then show ?thesis using NullableReference 1(2) [OF refl] by (simp add: strategy_fun)
  next
    case SelfDescribing
    then have c: "\<not> (is_container (traits_of v) \<and> \<not> convertible_to_string (traits_of v))"
      "\<not> (is_pointer_like (traits_of v) \<or> is_pointer (traits_of v))"
      "has_member_function_serialize (traits_of v)"
      by (simp_all add: classify_eq split: if_splits)
    have a: "appends (Writer_shift os (Plain (char_val CHR ''{'')))"
      by (rule 1(3) [OF refl c])
    have b: "appends (serialize os (members v))"
      by (rule 1(4) [OF refl c])
    have d: "appends (Writer_shift os (Plain (char_val CHR ''}'')))"
      by (rule 1(5) [OF refl c])
    show ?thesis using SelfDescribing appends_comp [OF appends_comp [OF a b] d]
      by (simp add: strategy_fun)
  next
    case Scalar
    then show ?thesis by (simp add: appends_scalar_strategy)
  qed
  then have "appends (\<lambda>\<sigma>. strategy (classify (traits_of v)) os v (field_label n \<sigma>))"
    using appends_comp [OF appends_field_label] by blast
  then show ?case by (simp add: print_dispatch [abs_def])
next
  case (2 os v \<sigma>)
  have "print_container os v =
      (\<lambda>\<sigma>. put cout [backspace, CHR '']''] (for_each os (elements v) (put cout ''['' \<sigma>)))"
    by (simp add: fun_eq_iff print_container.simps)
  then show ?case
    using appends_comp [OF appends_comp [OF appends_put 2] appends_put] by simp
next
  case (3 os \<sigma>)
  have "for_each os [] = (\<lambda>\<sigma>. \<sigma>)" by (simp add: fun_eq_iff)
  then show ?case by (simp add: appends_id)
next
  case (4 os x xs \<sigma>)
  have "for_each os (x # xs) = (\<lambda>\<sigma>. for_each os xs (put cout '','' (print os x [] \<sigma>)))"
    by (simp add: fun_eq_iff)
  then show ?case
    using appends_comp [OF appends_comp [OF 4(1) appends_put] 4(2)] by simp
next
  case (5 os v \<sigma>)
  show ?case
  proof (cases "pointee v")
    case None
    then show ?thesis by (simp add: print_pointer_fun appends_put)
  next
    case (Some x)
    then have "\<not> equals v (makeNullValue (traits_of v))"
      by (cases "makeNullValue (traits_of v)") simp_all
    then have "appends (print os x [])" using 5 Some by blast
    then show ?thesis using Some by (simp add: print_pointer_fun)
  qed
next
  case (6 os n v \<sigma>)
  have "Writer_shift os (Nvp n v) = print os v n" by (simp add: fun_eq_iff)
  then show ?case using 6 by simp
next
  case (7 os v \<sigma>)
  have "Writer_shift os (Plain v) = print os v []" by (simp add: fun_eq_iff)
  then show ?case using 7 by simp
next
  case (8 os \<sigma>)
  have "serialize os [] = (\<lambda>\<sigma>. \<sigma>)" by (simp add: fun_eq_iff)
  then show ?case by (simp add: appends_id)
next
  case (9 os i "is" \<sigma>)
  have "serialize os (i # is) = (\<lambda>\<sigma>. serialize os is (Writer_shift os i \<sigma>))"
    by (simp add: fun_eq_iff)
  then show ?case using appends_comp [OF 9(1) 9(2)] by simp
qed


lemmas library_defs = int_val_def int8_val_def double_val_def bool_val_def string_val_def string_view_val_def vector_val_def
  optional_val_def iterable_struct_val_def iterable_struct_traits_def raw_pointer_val_def unique_ptr_val_def Foo_def char_val_def
  arithmetic_traits_def string_traits_def string_view_traits_def vector_traits_def
  optional_traits_def raw_pointer_traits_def smart_pointer_traits_def struct_traits_def
  char_traits_def





text \<open>
  The general format is well defined: the number of digits of a natural number brackets it
  between two powers of ten, and so does the decimal exponent for a magnitude; rounding
  goes to a nearest integer; and the six significant digits of a number that is not zero
  are six digits indeed, the first of them not zero.
\<close>

lemma digits_length:
  "0 < length (digits n) \<and> n < 10 ^ length (digits n)
   \<and> (0 < n \<longrightarrow> 10 ^ (length (digits n) - 1) \<le> n)"
proof (induction n rule: digits.induct)
  case (1 n)
  show ?case
  proof (cases "n < 10")
    case True
    then show ?thesis by (simp add: digits.simps [of n])
  next
    case False
    let ?m = "n div 10" and ?l = "length (digits (n div 10))"
    have ih: "0 < ?l" "?m < 10 ^ ?l" "10 ^ (?l - 1) \<le> ?m"
      using 1 False by simp_all
    have len: "length (digits n) = ?l + 1"
      using False by (simp add: digits.simps [of n])
    have "n < 10 * (?m + 1)" by simp
    also have "\<dots> \<le> 10 * 10 ^ ?l" using ih(2) by simp
    finally have up: "n < 10 ^ (?l + 1)" by simp
    have "(10::nat) ^ ?l = 10 * 10 ^ (?l - 1)"
      using ih(1) by (cases ?l) simp_all
    also have "\<dots> \<le> 10 * ?m" using ih(3) by simp
    also have "\<dots> \<le> n" by simp
    finally have low: "10 ^ ?l \<le> n" .
    show ?thesis using len up low by simp
  qed
qed

lemma round_half_even_nearest:
  assumes "0 < d"
  shows "2 * (n - round_half_even n d * d) \<le> d \<and> 2 * (round_half_even n d * d - n) \<le> d"
proof -
  define a r where "a = n div d * d" and "r = n mod d"
  have n: "n = a + r" by (simp add: a_def r_def)
  have r: "r < d" using assms by (simp add: r_def)
  show ?thesis
  proof (cases "d < 2 * r \<or> (2 * r = d \<and> odd (n div d))")
    case True
    then have "round_half_even n d = n div d + 1"
      by (simp add: round_half_even_def Let_def r_def)
    then have q: "round_half_even n d * d = a + d"
      by (simp add: a_def)
    show ?thesis unfolding q using True n r by arith
  next
    case False
    then have "round_half_even n d = n div d"
      by (simp add: round_half_even_def Let_def r_def)
    then have q: "round_half_even n d * d = a"
      by (simp add: a_def)
    show ?thesis unfolding q using False n r by arith
  qed
qed

lemma decimal_exponent_bounds:
  assumes "0 < num" and "0 < den"
  shows "(0 \<le> decimal_exponent num den \<longrightarrow>
            den * 10 ^ nat (decimal_exponent num den) \<le> num
          \<and> num < den * 10 ^ (nat (decimal_exponent num den) + 1))
       \<and> (decimal_exponent num den < 0 \<longrightarrow>
            den \<le> num * 10 ^ nat (- decimal_exponent num den)
          \<and> num * 10 ^ (nat (- decimal_exponent num den) - 1) < den)"
proof -
  define a b where "a = length (digits num)" and "b = length (digits den)"
  have a: "0 < a" "num < 10 ^ a" "10 ^ (a - 1) \<le> num"
    using digits_length [of num] assms(1) by (simp_all add: a_def)
  have b: "0 < b" "den < 10 ^ b" "10 ^ (b - 1) \<le> den"
    using digits_length [of den] assms(2) by (simp_all add: b_def)
  have pw: "m = i + j \<Longrightarrow> (10::nat) ^ m = 10 ^ i * 10 ^ j" for m i j
    by (simp add: power_add)
  have up: "num < den * 10 ^ j" if "a = (b - 1) + j" for j
  proof -
    have "num < 10 ^ a" by (rule a(2))
    also have "(10::nat) ^ a = 10 ^ (b - 1) * 10 ^ j" by (rule pw) (rule that)
    also have "\<dots> \<le> den * 10 ^ j" by (rule mult_le_mono1) (rule b(3))
    finally show ?thesis .
  qed
  have low: "den * 10 ^ j \<le> num" if "a - 1 = b + j" for j
  proof -
    have "den * 10 ^ j \<le> 10 ^ b * 10 ^ j"
      by (rule mult_le_mono1) (use b(2) in simp)
    also have "\<dots> = 10 ^ (a - 1)" by (rule pw [symmetric]) (rule that)
    also have "\<dots> \<le> num" by (rule a(3))
    finally show ?thesis .
  qed
  have up': "den \<le> num * 10 ^ j" if "b = (a - 1) + j" for j
  proof -
    have "den \<le> 10 ^ b" using b(2) by simp
    also have "(10::nat) ^ b = 10 ^ (a - 1) * 10 ^ j" by (rule pw) (rule that)
    also have "\<dots> \<le> num * 10 ^ j" by (rule mult_le_mono1) (rule a(3))
    finally show ?thesis .
  qed
  have low': "num * 10 ^ j < den" if "b - 1 = a + j" for j
  proof -
    have "num * 10 ^ j < 10 ^ a * 10 ^ j"
      by (rule mult_less_mono1) (use a(2) in simp_all)
    also have "\<dots> = 10 ^ (b - 1)" by (rule pw [symmetric]) (rule that)
    also have "\<dots> \<le> den" by (rule b(3))
    finally show ?thesis .
  qed
  show ?thesis
  proof (cases "b \<le> a")
    case True
    define k where "k = a - b"
    have x0: "int (length (digits num)) - int (length (digits den)) = int k"
      using True by (simp add: k_def a_def b_def)
    show ?thesis
    proof (cases "den * 10 ^ k \<le> num")
      case c: True
      then have x: "decimal_exponent num den = int k"
        by (simp add: decimal_exponent_def Let_def x0)
      have "num < den * 10 ^ (k + 1)"
        by (rule up) (use True b(1) in \<open>simp add: k_def\<close>)
      then show ?thesis using c unfolding x by simp
    next
      case c: False
      then have x: "decimal_exponent num den = int k - 1"
        by (simp add: decimal_exponent_def Let_def x0)
      show ?thesis
      proof (cases k)
        case 0
        have "den \<le> num * 10 ^ 1"
          by (rule up') (use True a(1) 0 in \<open>simp add: k_def\<close>)
        then show ?thesis using c 0 unfolding x by simp
      next
        case (Suc j)
        have "den * 10 ^ j \<le> num"
          by (rule low) (use True Suc in \<open>simp add: k_def\<close>)
        then show ?thesis using c Suc unfolding x by simp
      qed
    qed
  next
    case False
    define k where "k = b - a"
    have k: "0 < k" using False by (simp add: k_def)
    have x0: "int (length (digits num)) - int (length (digits den)) = - int k"
      using False by (simp add: k_def a_def b_def)
    have neg: "\<not> 0 \<le> - int k" using k by simp
    show ?thesis
    proof (cases "den \<le> num * 10 ^ k")
      case c: True
      then have x: "decimal_exponent num den = - int k"
        using neg by (simp add: decimal_exponent_def Let_def x0)
      have "num * 10 ^ (k - 1) < den"
        by (rule low') (use False k in \<open>simp add: k_def\<close>)
      then show ?thesis using c k unfolding x by simp
    next
      case c: False
      then have x: "decimal_exponent num den = - int k - 1"
        using neg by (simp add: decimal_exponent_def Let_def x0)
      have "den \<le> num * 10 ^ (k + 1)"
        by (rule up') (use False a(1) in \<open>simp add: k_def\<close>)
      moreover have "nat (1 + int k) = k + 1" by simp
      ultimately show ?thesis using c k unfolding x by simp
    qed
  qed
qed

lemma round_half_even_range:
  assumes "0 < d" and "l * d \<le> n" and "n < u * d"
  shows "l \<le> round_half_even n d \<and> round_half_even n d \<le> u"
proof -
  have "l \<le> n div d"
    using assms(1,2) by (simp add: less_eq_div_iff_mult_less_eq)
  moreover have "n div d < u"
    using assms(1,3) by (simp add: div_less_iff_less_mult)
  ultimately show ?thesis
    by (auto simp: round_half_even_def Let_def)
qed

lemma scale_up:
  fixes num den :: nat
  assumes "m = i + j"
  shows "den * 10 ^ i \<le> num \<Longrightarrow> 10 ^ m * den \<le> num * 10 ^ j"
    and "num < den * 10 ^ i \<Longrightarrow> num * 10 ^ j < 10 ^ m * den"
proof -
  have e: "10 ^ m * den = (den * 10 ^ i) * 10 ^ j"
    by (simp add: assms power_add mult_ac)
  show "10 ^ m * den \<le> num * 10 ^ j" if "den * 10 ^ i \<le> num"
    unfolding e by (rule mult_le_mono1) (rule that)
  show "num * 10 ^ j < 10 ^ m * den" if "num < den * 10 ^ i"
    unfolding e by (rule mult_less_mono1) (use that in simp_all)
qed

lemma scale_down:
  fixes num den :: nat
  assumes "i = m + j"
  shows "den * 10 ^ i \<le> num \<Longrightarrow> 10 ^ m * (den * 10 ^ j) \<le> num"
    and "num < den * 10 ^ i \<Longrightarrow> num < 10 ^ m * (den * 10 ^ j)"
proof -
  have e: "10 ^ m * (den * 10 ^ j) = den * 10 ^ i"
    by (simp add: assms power_add mult_ac)
  show "10 ^ m * (den * 10 ^ j) \<le> num" if "den * 10 ^ i \<le> num"
    unfolding e by (rule that)
  show "num < 10 ^ m * (den * 10 ^ j)" if "num < den * 10 ^ i"
    unfolding e by (rule that)
qed

lemma scale_small:
  fixes num den :: nat
  shows "den \<le> num * 10 ^ j \<Longrightarrow> 10 ^ m * den \<le> num * 10 ^ (j + m)"
    and "0 < j \<Longrightarrow> num * 10 ^ (j - 1) < den \<Longrightarrow> num * 10 ^ (j + m) < 10 ^ (m + 1) * den"
proof -
  have e: "num * 10 ^ (j + m) = 10 ^ m * (num * 10 ^ j)"
    by (simp add: power_add mult_ac)
  show "10 ^ m * den \<le> num * 10 ^ (j + m)" if "den \<le> num * 10 ^ j"
    unfolding e by (rule mult_le_mono2) (rule that)
  show "num * 10 ^ (j + m) < 10 ^ (m + 1) * den" if "0 < j" and "num * 10 ^ (j - 1) < den"
  proof -
    have "j + m = (j - 1) + (m + 1)" using that(1) by simp
    then have "num * 10 ^ (j + m) = (num * 10 ^ (j - 1)) * 10 ^ (m + 1)"
      by (simp only: power_add mult.assoc)
    also have "\<dots> < den * 10 ^ (m + 1)"
      by (rule mult_less_mono1) (use that(2) in simp_all)
    finally show ?thesis by (simp add: mult_ac)
  qed
qed

lemma significant_six_digits:
  assumes "0 < num" and "0 < den" and "significant num den = (x, q)"
  shows "100000 \<le> q \<and> q < 1000000"
proof -
  define y where "y = decimal_exponent num den"
  define q0 where "q0 = (if y \<le> 5 then round_half_even (num * 10 ^ nat (5 - y)) den
      else round_half_even num (den * 10 ^ nat (y - 5)))"
  have range: "10 ^ 5 \<le> q0 \<and> q0 \<le> 10 ^ 6"
  proof (cases "0 \<le> y")
    case True
    then have bnd: "den * 10 ^ nat y \<le> num" "num < den * 10 ^ (nat y + 1)"
      using decimal_exponent_bounds [OF assms(1,2)] by (simp_all add: y_def)
    show ?thesis
    proof (cases "y \<le> 5")
      case le: True
      define j where "j = nat (5 - y)"
      have l: "10 ^ 5 * den \<le> num * 10 ^ j"
        by (rule scale_up(1) [OF _ bnd(1)]) (use True le in \<open>simp add: j_def\<close>)
      have u: "num * 10 ^ j < 10 ^ 6 * den"
        by (rule scale_up(2) [OF _ bnd(2)]) (use True le in \<open>simp add: j_def\<close>)
      have "q0 = round_half_even (num * 10 ^ j) den"
        using le by (simp add: q0_def j_def)
      then show ?thesis
        using round_half_even_range [OF assms(2) l u] by simp
    next
      case gt: False
      define j where "j = nat (y - 5)"
      have l: "10 ^ 5 * (den * 10 ^ j) \<le> num"
        by (rule scale_down(1) [OF _ bnd(1)]) (use gt in \<open>simp add: j_def\<close>)
      have u: "num < 10 ^ 6 * (den * 10 ^ j)"
        by (rule scale_down(2) [OF _ bnd(2)]) (use gt in \<open>simp add: j_def\<close>)
      have d: "0 < den * 10 ^ j" using assms(2) by simp
      have "q0 = round_half_even num (den * 10 ^ j)"
        using gt by (simp add: q0_def j_def)
      then show ?thesis
        using round_half_even_range [OF d l u] by simp
    qed
  next
    case False
    define j where "j = nat (- y)"
    have j: "0 < j" using False by (simp add: j_def)
    have bnd: "den \<le> num * 10 ^ j" "num * 10 ^ (j - 1) < den"
      using decimal_exponent_bounds [OF assms(1,2)] False by (simp_all add: y_def j_def)
    have n5: "nat (5 - y) = j + 5" using False by (simp add: j_def)
    have l: "10 ^ 5 * den \<le> num * 10 ^ (j + 5)"
      by (rule scale_small(1) [OF bnd(1)])
    have u: "num * 10 ^ (j + 5) < 10 ^ 6 * den"
      using scale_small(2) [OF j bnd(2), of 5] by simp
    have "q0 = round_half_even (num * 10 ^ (j + 5)) den"
      using False by (simp add: q0_def n5)
    then show ?thesis
      using round_half_even_range [OF assms(2) l u] by simp
  qed
  have "significant num den = (if q0 = 1000000 then (y + 1, 100000) else (y, q0))"
    unfolding significant_def Let_def y_def q0_def by (rule refl)
  then have "(x, q) = (if q0 = 1000000 then (y + 1, 100000) else (y, q0))"
    using assms(3) by simp
  then show ?thesis using range by (auto split: if_splits)
qed

lemma significant_length:
  assumes "0 < num" and "0 < den" and "significant num den = (x, q)"
  shows "length (digits q) = 6"
proof -
  define l where "l = length (digits q)"
  have q: "10 ^ 5 \<le> q" "q < 10 ^ 6"
    using significant_six_digits [OF assms] by simp_all
  have l: "0 < l" "q < 10 ^ l" "10 ^ (l - 1) \<le> q"
    using digits_length [of q] q(1) by (simp_all add: l_def)
  have "\<not> l \<le> 5"
  proof
    assume "l \<le> 5"
    then have "(10::nat) ^ l \<le> 10 ^ 5" by (intro power_increasing) simp_all
    then show False using l(2) q(1) by simp
  qed
  moreover have "\<not> 7 \<le> l"
  proof
    assume "7 \<le> l"
    then have "(10::nat) ^ 6 \<le> 10 ^ (l - 1)" by (intro power_increasing) simp_all
    then show False using l(3) q(2) by simp
  qed
  ultimately show ?thesis unfolding l_def by simp
qed

lemma non_null_has_pointee: "\<not> equals v s \<Longrightarrow> pointee v \<noteq> None"
  by (cases s) simp_all



lemma print_scalar:
  "classify (traits_of v) = Scalar \<Longrightarrow>
   print os v [] \<sigma> =
     (case scalar_of v of Boolean b \<Rightarrow> print_default_bool os b \<sigma> | _ \<Rightarrow> print_default os v \<sigma>)"
  by (simp add: print_dispatch field_label_def)

lemma print_default_bool_eq:
  "print_default_bool os b \<sigma> =
     \<sigma>(os := \<lparr>buf = buf (\<sigma> os) @ (if b then ''true'' else ''false''),
               flags = flags (\<sigma> os) - {boolalpha}\<rparr>)"
  by (cases "\<sigma> os") (simp add: print_default_bool_def setf_def unsetf_def put_def)







lemma for_each_rendered:
  "buf (for_each cout xs \<sigma> cout) = buf (\<sigma> cout) @ concat (map (\<lambda>x. rendered x @ '','') xs)"
proof (induction xs arbitrary: \<sigma>)
  case Nil
  show ?case by simp
next
  case (Cons x xs)
  have "buf (print cout x [] \<sigma> cout) = buf (\<sigma> cout) @ rendered x"
    unfolding rendered_def by (rule appendsD [OF appends_all(1)])
  then show ?case by (simp add: Cons.IH put_def)
qed

section \<open>Sequences\<close>

text \<open>
  Claim C1, as amended. The claim asks for \<open>N - 1\<close> separators between \<open>N\<close> elements
  and for the two characters \<^verbatim>\<open>[]\<close> for an empty sequence. \<^verbatim>\<open>print_container\<close>
  instead inserts a separator after every element and then a backspace character before the
  closing bracket. What holds: a non-empty sequence emitted to standard output with no field
  name adds an opening bracket, then each element's rendering followed by one separator, in
  iteration order, then a backspace character and the closing bracket.
\<close>

theorem sequence_rendering:
  assumes "classify (traits_of v) = Sequence" and "elements v \<noteq> []"
  shows "buf (print cout v [] \<sigma> cout) =
           buf (\<sigma> cout) @ ''['' @ concat (map (\<lambda>x. rendered x @ '','') (elements v))
             @ [backspace] @ '']''"
  using assms(1)
  by (simp add: print_dispatch field_label_def print_container.simps for_each_rendered put_def)

theorem sequence_rendering_witness:
  "classify (traits_of (vector_val [int_val 1, int_val 2, int_val 3])) = Sequence
   \<and> elements (vector_val [int_val 1, int_val 2, int_val 3]) \<noteq> []
   \<and> buf (print cout (vector_val [int_val 1, int_val 2, int_val 3]) [] fresh cout) =
       buf (fresh cout) @ ''['' @
       concat (map (\<lambda>x. rendered x @ '','') (elements (vector_val [int_val 1, int_val 2, int_val 3])))
       @ [backspace] @ '']''
   \<and> buf (print cout (vector_val [int_val 1, int_val 2, int_val 3]) [] fresh cout) =
       ''[1,2,3,'' @ [backspace] @ '']''"
proof -
  let ?v = "vector_val [int_val 1, int_val 2, int_val 3]"
  have a: "classify (traits_of ?v) = Sequence"
    by (simp add: classify_def library_defs)
  have b: "elements ?v \<noteq> []"
    by (simp add: vector_val_def)
  have c: "buf (print cout ?v [] fresh cout) = ''[1,2,3,'' @ [backspace] @ '']''"
    by (simp add: library_defs print.simps print_container.simps print_default_def
        fresh_def put_def decimal_def digits.simps)
  show ?thesis
    using a b c sequence_rendering [OF a b, of fresh] by blast
qed

text \<open>
  The claim C1 as it is written fails: an empty vector emitted to standard output gives
  three characters, with a backspace between the brackets, and a vector of two elements
  gives two separators and a backspace.
\<close>

theorem sequence_rendering_counterexample:
  "buf (print cout (vector_val []) [] fresh cout) \<noteq> ''[]''
   \<and> buf (print cout (vector_val []) [] fresh cout) = [CHR ''['', backspace, CHR '']'']
   \<and> buf (print cout (vector_val [int_val 1, int_val 2]) [] fresh cout) \<noteq> ''[1,2]''
   \<and> buf (print cout (vector_val [int_val 1, int_val 2]) [] fresh cout)
       = ''[1,2,'' @ [backspace] @ '']''"
  by (simp add: library_defs print.simps print_container.simps print_default_def
      fresh_def put_def decimal_def digits.simps backspace_def)

section \<open>The stream that is written\<close>

text \<open>
  Claim C2 says that every character of an emission goes to the given stream. The code
  inserts the field label, the brackets, the separators and \<^verbatim>\<open>null\<close> into
  \<^verbatim>\<open>std::cout\<close>, and only the scalars and the characters inserted through the writer
  into the given stream. For a vector of three integers emitted with a name to a string
  stream, the string stream receives the three numbers and standard output the rest.
\<close>

theorem punctuation_goes_to_cout:
  "buf (print (ostringstream 0) (vector_val [int_val 1, int_val 2, int_val 3]) ''nums'' fresh
         (ostringstream 0)) = ''123''
   \<and> buf (print (ostringstream 0) (vector_val [int_val 1, int_val 2, int_val 3]) ''nums'' fresh
         cout) = [quote] @ ''nums'' @ [quote] @ '':[,,,'' @ [backspace] @ '']''
   \<and> buf (print (ostringstream 0) (raw_pointer_val None) ''p'' fresh (ostringstream 0)) = []"
  by (simp add: library_defs print.simps print_container.simps print_pointer.simps
      print_default_def makeNullValue_def fresh_def put_def decimal_def digits.simps)

section \<open>Classification\<close>

text \<open>
  Claim C3. \<^verbatim>\<open>print\<close> inserts the label and then renders by the strategy of the
  first category, in the order sequence, nullable reference, self-describing, scalar, that
  the type qualifies for. So a type that qualifies both as a sequence and as
  self-describing is classified as a sequence and goes to \<^verbatim>\<open>print_container\<close>, and
  what its \<^verbatim>\<open>serialize\<close> member would insert has no influence on the result.
\<close>

theorem classification_order:
  "print os v n \<sigma> = strategy (classify (traits_of v)) os v (field_label n \<sigma>)
   \<and> classify T =
       (if qualifies T Sequence then Sequence
        else if qualifies T NullableReference then NullableReference
        else if qualifies T SelfDescribing then SelfDescribing
        else Scalar)
   \<and> (qualifies (traits_of v) Sequence \<and> qualifies (traits_of v) SelfDescribing \<longrightarrow>
        classify (traits_of v) = Sequence
        \<and> print os v n \<sigma> = print_container os v (field_label n \<sigma>)
        \<and> print os (Val (traits_of v) (scalar_of v) (elements v) (pointee v) ms) n \<sigma> = print os v n \<sigma>)"
proof (intro conjI impI)
  show "print os v n \<sigma> = strategy (classify (traits_of v)) os v (field_label n \<sigma>)"
    by (rule print_dispatch)
  show "classify T =
       (if qualifies T Sequence then Sequence
        else if qualifies T NullableReference then NullableReference
        else if qualifies T SelfDescribing then SelfDescribing
        else Scalar)"
    by (simp add: classify_def)
next
  assume both: "qualifies (traits_of v) Sequence \<and> qualifies (traits_of v) SelfDescribing"
  then show seq: "classify (traits_of v) = Sequence"
    by (simp add: classify_def)
  then show eq: "print os v n \<sigma> = print_container os v (field_label n \<sigma>)"
    by (simp add: print_dispatch)
  let ?w = "Val (traits_of v) (scalar_of v) (elements v) (pointee v) ms"
  have "print os ?w n \<sigma> = print_container os ?w (field_label n \<sigma>)"
    using seq by (simp add: print_dispatch)
  also have "\<dots> = print_container os v (field_label n \<sigma>)"
    by (simp add: print_container.simps)
  finally show "print os ?w n \<sigma> = print os v n \<sigma>"
    using eq by simp
qed

theorem classification_order_witness:
  "qualifies (traits_of (iterable_struct_val [int_val 1, int_val 2] [Nvp ''a'' (int_val 7)])) Sequence
   \<and> qualifies (traits_of (iterable_struct_val [int_val 1, int_val 2] [Nvp ''a'' (int_val 7)])) SelfDescribing
   \<and> classify (traits_of (iterable_struct_val [int_val 1, int_val 2] [Nvp ''a'' (int_val 7)])) = Sequence
   \<and> print cout (iterable_struct_val [int_val 1, int_val 2] [Nvp ''a'' (int_val 7)]) ''f'' fresh
       = print_container cout (iterable_struct_val [int_val 1, int_val 2] [Nvp ''a'' (int_val 7)])
           (field_label ''f'' fresh)
   \<and> buf (print cout (iterable_struct_val [int_val 1, int_val 2] [Nvp ''a'' (int_val 7)]) [] fresh cout)
       = ''[1,2,'' @ [backspace] @ '']''"
proof -
  let ?v = "iterable_struct_val [int_val 1, int_val 2] [Nvp ''a'' (int_val 7)]"
  have a: "qualifies (traits_of ?v) Sequence"
    by (simp add: library_defs)
  have b: "qualifies (traits_of ?v) SelfDescribing"
    by (simp add: library_defs)
  have c: "buf (print cout ?v [] fresh cout) = ''[1,2,'' @ [backspace] @ '']''"
    by (simp add: library_defs print.simps print_container.simps print_default_def
        fresh_def put_def decimal_def digits.simps)
  show ?thesis
    using a b c classification_order [where os = cout and v = ?v and n = "''f''" and \<sigma> = fresh]
    by blast
qed

text \<open>
  Claim C4 says that no text type is treated as a sequence. The first test of
  \<^verbatim>\<open>print\<close> excludes the types convertible to \<^verbatim>\<open>std::string\<close>, while
  \<^verbatim>\<open>print_default\<close> takes as text the types convertible to \<^verbatim>\<open>std::string_view\<close>.
  A \<^verbatim>\<open>std::string_view\<close> is iterable, is text for \<^verbatim>\<open>print_default\<close>, and is not
  convertible to \<^verbatim>\<open>std::string\<close>: it is classified as a sequence and emitted as the
  bracketed list of its characters. A \<^verbatim>\<open>std::string\<close> with the same characters is
  emitted between quotes.
\<close>

theorem string_view_printed_as_sequence:
  "convertible_to_string_view (traits_of (string_view_val ''ab''))
   \<and> classify (traits_of (string_view_val ''ab'')) = Sequence
   \<and> buf (print cout (string_view_val ''ab'') [] fresh cout) = ''[a,b,'' @ [backspace] @ '']''
   \<and> buf (print cout (string_val ''ab'') [] fresh cout) = [quote] @ ''ab'' @ [quote]"
  by (simp add: library_defs classify_def print.simps print_container.simps print_default_def
      fresh_def put_def)

section \<open>Nullable references\<close>

text \<open>
  Claim C5. A value whose type is classified as a nullable reference and that compares
  equal to the null value of its type is emitted, with no field name, as the token
  \<^verbatim>\<open>null\<close> and nothing else, whatever the type it would refer to. The token is
  inserted into \<^verbatim>\<open>std::cout\<close>.
\<close>

theorem null_handle_prints_null:
  assumes "classify (traits_of v) = NullableReference"
    and "equals v (makeNullValue (traits_of v))"
  shows "print os v [] \<sigma> = put cout ''null'' \<sigma>"
  using assms by (simp add: print_dispatch field_label_def print_pointer.simps)

theorem null_handle_prints_null_witness:
  "classify (traits_of (optional_val None)) = NullableReference
   \<and> equals (optional_val None) (makeNullValue (traits_of (optional_val None)))
   \<and> classify (traits_of (raw_pointer_val None)) = NullableReference
   \<and> equals (raw_pointer_val None) (makeNullValue (traits_of (raw_pointer_val None)))
   \<and> print (ostringstream 0) (optional_val None) [] fresh = put cout ''null'' fresh
   \<and> print cout (raw_pointer_val None) [] fresh = put cout ''null'' fresh"
proof -
  have a: "classify (traits_of (optional_val None)) = NullableReference"
    by (simp add: classify_def library_defs)
  have b: "equals (optional_val None) (makeNullValue (traits_of (optional_val None)))"
    by (simp add: makeNullValue_def library_defs)
  have c: "classify (traits_of (raw_pointer_val None)) = NullableReference"
    by (simp add: classify_def library_defs)
  have d: "equals (raw_pointer_val None) (makeNullValue (traits_of (raw_pointer_val None)))"
    by (simp add: makeNullValue_def library_defs)
  show ?thesis
    using a b c d null_handle_prints_null [OF a b, of "ostringstream 0" fresh]
      null_handle_prints_null [OF c d, of cout fresh]
    by simp
qed

text \<open>
  Claim C6. A value whose type is classified as a nullable reference and that refers to
  an object is emitted, with no field name, exactly as that object is: the streams after
  the two calls are equal, for any object, so also for one that nests further handles and
  sequences.
\<close>

theorem present_handle_prints_inner:
  assumes "classify (traits_of v) = NullableReference"
    and "pointee v = Some x"
  shows "print os v [] \<sigma> = print os x [] \<sigma>"
proof -
  have "\<not> equals v (makeNullValue (traits_of v))"
    using assms(2) by (cases "makeNullValue (traits_of v)") simp_all
  then show ?thesis
    using assms by (simp add: print_dispatch field_label_def print_pointer.simps)
qed

theorem present_handle_prints_inner_witness:
  "classify (traits_of (optional_val (Some (vector_val [optional_val (Some (int_val 4)), optional_val None]))))
     = NullableReference
   \<and> pointee (optional_val (Some (vector_val [optional_val (Some (int_val 4)), optional_val None])))
     = Some (vector_val [optional_val (Some (int_val 4)), optional_val None])
   \<and> print cout (optional_val (Some (vector_val [optional_val (Some (int_val 4)), optional_val None]))) [] fresh
     = print cout (vector_val [optional_val (Some (int_val 4)), optional_val None]) [] fresh"
proof -
  let ?x = "vector_val [optional_val (Some (int_val 4)), optional_val None]"
  have a: "classify (traits_of (optional_val (Some ?x))) = NullableReference"
    by (simp add: classify_def optional_val_def optional_traits_def char_traits_def)
  have b: "pointee (optional_val (Some ?x)) = Some ?x"
    by (simp add: optional_val_def)
  show ?thesis
    using a b present_handle_prints_inner [OF a b, of cout fresh] by simp
qed

text \<open>
  Claim C7. The null value a handle is compared with depends on the type alone:
  \<^verbatim>\<open>std::nullopt\<close> when the type can be assigned \<^verbatim>\<open>std::nullopt\<close>, the null pointer
  otherwise, and the null test of \<^verbatim>\<open>print\<close> on a nullable reference is the comparison
  with that value. So \<^verbatim>\<open>std::optional\<close> is compared with \<^verbatim>\<open>std::nullopt\<close>, raw and
  smart pointers with \<^verbatim>\<open>nullptr\<close>.
\<close>

theorem null_value_chosen_per_type:
  "makeNullValue T = (if assignable_from_nullopt T then Nullopt else Nullptr)
   \<and> (classify (traits_of v) = NullableReference \<longrightarrow>
        print os v [] \<sigma> =
          (if equals v (if assignable_from_nullopt (traits_of v) then Nullopt else Nullptr)
           then put cout ''null'' \<sigma>
           else (case pointee v of Some x \<Rightarrow> print os x [] \<sigma> | None \<Rightarrow> \<sigma>)))
   \<and> makeNullValue optional_traits = Nullopt
   \<and> makeNullValue raw_pointer_traits = Nullptr
   \<and> makeNullValue smart_pointer_traits = Nullptr"
  by (simp add: makeNullValue_def print_dispatch field_label_def print_pointer.simps
      optional_traits_def raw_pointer_traits_def smart_pointer_traits_def char_traits_def)

theorem null_value_chosen_per_type_witness:
  "classify (traits_of (optional_val None)) = NullableReference
   \<and> assignable_from_nullopt (traits_of (optional_val None))
   \<and> equals (optional_val None) Nullopt
   \<and> print cout (optional_val None) [] fresh = put cout ''null'' fresh
   \<and> classify (traits_of (unique_ptr_val (Some (int_val 543)))) = NullableReference
   \<and> \<not> assignable_from_nullopt (traits_of (unique_ptr_val (Some (int_val 543))))
   \<and> \<not> equals (unique_ptr_val (Some (int_val 543))) Nullptr
   \<and> print cout (unique_ptr_val (Some (int_val 543))) [] fresh = print cout (int_val 543) [] fresh"
proof -
  let ?e = "optional_val None" and ?p = "unique_ptr_val (Some (int_val 543))"
  have a: "classify (traits_of ?e) = NullableReference"
    by (simp add: classify_def library_defs)
  have b: "assignable_from_nullopt (traits_of ?e)" "equals ?e Nullopt"
    by (simp_all add: library_defs)
  have c: "classify (traits_of ?p) = NullableReference"
    by (simp add: classify_def library_defs)
  have d: "\<not> assignable_from_nullopt (traits_of ?p)" "\<not> equals ?p Nullptr"
    "pointee ?p = Some (int_val 543)"
    by (simp_all add: library_defs)
  show ?thesis
    using a b c d null_value_chosen_per_type [of "traits_of ?e" ?e cout fresh]
      null_value_chosen_per_type [of "traits_of ?p" ?p cout fresh]
    by simp
qed

section \<open>Scalars\<close>




section \<open>Field names\<close>

text \<open>
  Claim C9. A call with a non-empty field name inserts the label, that is quote, name,
  quote and colon, once and then does what the call with no field name does: the name is
  used up by the label and the value is rendered as it is without a name. On standard
  output the text added is the label followed by the rendering of the value. The label
  is inserted into \<^verbatim>\<open>std::cout\<close>.
\<close>

theorem field_name_consumed_once:
  assumes "n \<noteq> []"
  shows "print os v n \<sigma> = print os v [] (put cout ([quote] @ n @ [quote] @ '':'') \<sigma>)
    \<and> buf (print cout v n \<sigma> cout) = buf (\<sigma> cout) @ [quote] @ n @ [quote] @ '':'' @ rendered v"
proof (rule conjI)
  show eq: "print os v n \<sigma> = print os v [] (put cout ([quote] @ n @ [quote] @ '':'') \<sigma>)" for os
    using assms by (simp add: print_dispatch field_label_def)
  have "buf (print cout v [] (put cout ([quote] @ n @ [quote] @ '':'') \<sigma>) cout)
      = buf (put cout ([quote] @ n @ [quote] @ '':'') \<sigma> cout) @ rendered v"
    unfolding rendered_def by (rule appendsD [OF appends_all(1)])
  then show "buf (print cout v n \<sigma> cout) = buf (\<sigma> cout) @ [quote] @ n @ [quote] @ '':'' @ rendered v"
    by (simp add: eq put_def)
qed

theorem field_name_consumed_once_witness:
  "''x'' \<noteq> []
   \<and> print cout (int_val 123) ''x'' fresh = print cout (int_val 123) [] (put cout ([quote] @ ''x'' @ [quote] @ '':'') fresh)
   \<and> buf (print cout (int_val 123) ''x'' fresh cout) = buf (fresh cout) @ [quote] @ ''x'' @ [quote] @ '':'' @ rendered (int_val 123)
   \<and> rendered (int_val 123) = ''123''"
proof -
  have a: "''x'' \<noteq> []" by simp
  have b: "rendered (int_val 123) = ''123''"
    by (simp add: rendered_def library_defs print.simps fresh_def put_def print_default_def
        decimal_def digits.simps)
  show ?thesis
    using a b field_name_consumed_once [OF a, of cout "int_val 123" fresh] by blast
qed

section \<open>Formatting flags\<close>

text \<open>
  Claim C10, as amended. The claim says that a \<^verbatim>\<open>bool\<close> emission leaves every
  formatting flag as it was. \<^verbatim>\<open>print_default\<close> sets \<^verbatim>\<open>boolalpha\<close> and clears it
  afterwards; it does not restore it. What holds: the emission adds \<^verbatim>\<open>true\<close> or
  \<^verbatim>\<open>false\<close> to the given stream and leaves \<^verbatim>\<open>boolalpha\<close> cleared there; the other
  flags and the other streams are as before, so the flags are as before the call exactly
  when \<^verbatim>\<open>boolalpha\<close> was clear.
\<close>

theorem bool_emission_clears_boolalpha:
  assumes "classify (traits_of v) = Scalar" and "scalar_of v = Boolean b"
  shows "print os v [] \<sigma> =
           \<sigma>(os := \<lparr>buf = buf (\<sigma> os) @ (if b then ''true'' else ''false''),
                     flags = flags (\<sigma> os) - {boolalpha}\<rparr>)
       \<and> (flags (print os v [] \<sigma> os) = flags (\<sigma> os)) = (boolalpha \<notin> flags (\<sigma> os))"
  using assms by (auto simp add: print_scalar print_default_bool_eq)

theorem bool_emission_clears_boolalpha_witness:
  "classify (traits_of (bool_val False)) = Scalar \<and> scalar_of (bool_val False) = Boolean False
   \<and> print cout (bool_val False) [] (setf cout unitbuf fresh) =
       (setf cout unitbuf fresh)(cout :=
          \<lparr>buf = buf (setf cout unitbuf fresh cout) @ (if False then ''true'' else ''false''),
           flags = flags (setf cout unitbuf fresh cout) - {boolalpha}\<rparr>)
   \<and> (flags (print cout (bool_val False) [] (setf cout unitbuf fresh) cout)
        = flags (setf cout unitbuf fresh cout))
       = (boolalpha \<notin> flags (setf cout unitbuf fresh cout))"
proof -
  have a: "classify (traits_of (bool_val False)) = Scalar"
    by (simp add: classify_def library_defs)
  have b: "scalar_of (bool_val False) = Boolean False"
    by (simp add: library_defs)
  show ?thesis
    using a b bool_emission_clears_boolalpha [OF a b, of cout "setf cout unitbuf fresh"]
    by blast
qed

text \<open>
  The claim C10 as it is written fails on a stream whose \<^verbatim>\<open>boolalpha\<close> flag was set
  by the caller: after the emission the flag is clear.
\<close>

theorem boolalpha_not_restored_counterexample:
  "flags (print cout (bool_val True) [] (setf cout boolalpha fresh) cout)
     \<noteq> flags (setf cout boolalpha fresh cout)"
  by (simp add: print.simps bool_val_def arithmetic_traits_def char_traits_def
      print_default_bool_def setf_def unsetf_def put_def fresh_def)

end
